theory Spec2Isabelle
  imports Complex_Main "HOL-Library.Char_ord" "HOL-Library.List_Lexorder"
begin

section \<open>The data model of \<open>app.py\<close>\<close>

text \<open>
  The script holds three pandas data frames and derives every other table from them.
  A data frame is modelled as the list of its rows, a row as a record with one field per
  column the script reads, and a nullable cell (\<open>None\<close>, \<open>NaN\<close>, \<open>NaT\<close>) as an
  \<open>option\<close> whose \<open>None\<close> is the null. Row labels (the pandas index) are not modelled:
  no table the script builds is read by label. The table \<open>census_tracts\<close> is loaded and
  never read, so it has no counterpart here.

  The permit table \<open>records\<close> changes the type of two columns during preprocessing
  (\<open>ISSUE_DATE\<close> from text to timestamp, \<open>VALUATION\<close> from text to number), so the row
  type is polymorphic in the two and the loaded and the preprocessed rows share their
  field names. Preprocessing appends the column \<open>YEAR\<close>, a record extension.

  A timestamp is the number of nanoseconds since 1970-01-01T00:00 UTC, as pandas stores
  it (\<open>datetime64[ns]\<close>, with or without a time zone). Valuations are pandas
  \<open>float64\<close> values: \<open>NaN\<close> is the null, the two infinities are values of their own, and
  a finite value is idealised as a real number. The join, the filter and the tables by
  permit type and by year never read a valuation and are polymorphic in its type; the
  two summaries that compute with valuations (the table by census tract and
  \<open>describe\<close>) are modelled for finite valuations, as reals.
\<close>

type_synonym timestamp = int

datatype float64 = Finite real | PosInf | NegInf

text \<open>The exceptions that preprocessing can end with.\<close>

datatype error = ValueError | AttributeError

record ('d, 'v) permit_record =
  ISSUE_DATE :: "'d option"
  VALUATION :: "'v option"
  PERMIT_TYPE :: "string option"
  CONTRACTOR_BUSINESS_NAME :: "string option"
  CENSUS_TRACT :: "string option"

record ('d, 'v) permit_year_record = "('d, 'v) permit_record" +
  YEAR :: "int option"

type_synonym raw_permit = "(string, string) permit_record"
type_synonym 'v permit = "(timestamp, 'v) permit_year_record"

text \<open>The projection \<open>contractors[['BUSINESS_NAME', 'BUSINESS_TYPE']]\<close>.\<close>

record contractor =
  BUSINESS_NAME :: "string option"
  BUSINESS_TYPE :: "string option"

text \<open>
  A row of \<open>merged_df\<close>: the columns of the permit row followed by the two columns of
  the contractor row it was joined with.
\<close>

type_synonym 'v merged_record = "'v permit \<times> contractor"

section \<open>Preprocessing (lines 19 to 27)\<close>

text \<open>
  \<open>pd.to_datetime(col, errors='coerce')\<close> on a column of strings and nulls. Its result
  is one of three, and which one, like which strings parse, is pandas' business and
  depends on the whole column (the format is inferred from its first entries):
  \<^item> a datetime column, without a time zone or with one for the whole column, in which
    a null and a string the parser rejects are \<open>NaT\<close>;
  \<^item> a column of Python objects, when the strings carry different UTC offsets
    (pandas 2); line 20 then raises \<open>AttributeError\<close>, because \<open>.dt\<close> exists on datetime
    columns only;
  \<^item> an exception at line 19 itself (later versions raise \<open>ValueError\<close> for strings with
    different UTC offsets).
  So the function is a parameter. For a datetime column it gives the UTC offset of the
  column's time zone at every instant, in nanoseconds (constantly 0 without a time
  zone), and the instant every string is parsed to.
\<close>

datatype datetime_column =
  ObjectColumn
| DatetimeColumn (utcoffset: "timestamp \<Rightarrow> int") (parsed: "string \<Rightarrow> timestamp option")

type_synonym date_parser = "string option list \<Rightarrow> error + datetime_column"

text \<open>
  The year of a wall-clock time, given as nanoseconds since 1970-01-01T00:00 on that
  clock, in the proleptic Gregorian calendar. The day number is shifted to count from
  0000-03-01, split into 400-year eras of 146097 days, and the year of the era is read
  off the day of the era. \<open>.dt.year\<close> of an entry of a datetime column is the year on the
  clock of the column's time zone: the year of the instant plus its UTC offset.
\<close>

definition dt_year :: "timestamp \<Rightarrow> int" where
  "dt_year ns =
     (let days = ns div 86400000000000;
          z = days + 719468;
          era = z div 146097;
          doe = z mod 146097;
          yoe = (doe - doe div 1460 + doe div 36524 - doe div 146096) div 365;
          doy = doe - (365 * yoe + yoe div 4 - yoe div 100);
          mp = (5 * doy + 2) div 153;
          m = (if mp < 10 then mp + 3 else mp - 9)
      in yoe + era * 400 + (if m \<le> 2 then 1 else 0))"

text \<open>\<open>.astype(str)\<close> on an object column: a string stays, \<open>None\<close> becomes the text \<open>None\<close>.\<close>

definition astype_str :: "string option \<Rightarrow> string" where
  "astype_str x = (case x of None \<Rightarrow> ''None'' | Some s \<Rightarrow> s)"

text \<open>
  \<open>.str.replace(pat, repl, regex=False)\<close>: every non-overlapping occurrence of the
  literal \<open>pat\<close>, scanning from the left, is replaced by \<open>repl\<close>.
\<close>

function str_replace :: "string \<Rightarrow> string \<Rightarrow> string \<Rightarrow> string" where
  "str_replace pat repl s =
     (if pat = [] then repl @ concat (map (\<lambda>c. c # repl) s)
      else if s = [] then []
      else if take (length pat) s = pat then repl @ str_replace pat repl (drop (length pat) s)
      else hd s # str_replace pat repl (tl s))"
  by pat_completeness auto
termination
  by (relation "measure (\<lambda>(pat, repl, s). length s)") (auto simp: neq_Nil_conv)

declare str_replace.simps [simp del]

text \<open>
  \<open>pd.to_numeric(col, errors='coerce')\<close> on a column of strings never raises: text that
  is not a number becomes \<open>NaN\<close>. The value of an entry depends on the column as well
  (one text that needs a float makes the whole column \<open>float64\<close>, which rounds the large
  integers of the others), so the number parser is a parameter that sees the column and
  the entry.
\<close>

type_synonym num_parser = "string list \<Rightarrow> string \<Rightarrow> float64 option"

definition clean_valuation :: "string option \<Rightarrow> string" where
  "clean_valuation x = str_replace '','' '''' (str_replace ''$'' '''' (astype_str x))"

text \<open>
  One row of a table whose date column became a datetime column with the offsets \<open>tz\<close>
  and the entries \<open>parse\<close>; \<open>numeric\<close> is the number parser on the column of cleaned
  valuations.
\<close>

definition preprocess_row ::
  "(timestamp \<Rightarrow> int) \<Rightarrow> (string \<Rightarrow> timestamp option) \<Rightarrow> (string \<Rightarrow> float64 option)
     \<Rightarrow> raw_permit \<Rightarrow> float64 permit" where
  "preprocess_row tz parse numeric r =
     (let d = (case ISSUE_DATE r of None \<Rightarrow> None | Some s \<Rightarrow> parse s) in
      \<lparr> ISSUE_DATE = d,
        VALUATION = numeric (clean_valuation (VALUATION r)),
        PERMIT_TYPE = PERMIT_TYPE r,
        CONTRACTOR_BUSINESS_NAME = CONTRACTOR_BUSINESS_NAME r,
        CENSUS_TRACT = CENSUS_TRACT r,
        YEAR = map_option (\<lambda>t. dt_year (t + tz t)) d \<rparr>)"

text \<open>
  Lines 19 to 27 on the whole table: the exception of line 19 or of line 20, or the
  preprocessed rows.
\<close>

definition preprocessing ::
  "date_parser \<Rightarrow> num_parser \<Rightarrow> raw_permit list \<Rightarrow> error + float64 permit list" where
  "preprocessing to_datetime to_numeric records =
     (case to_datetime (map ISSUE_DATE records) of
        Inl e \<Rightarrow> Inl e
      | Inr ObjectColumn \<Rightarrow> Inl AttributeError
      | Inr (DatetimeColumn tz parse) \<Rightarrow>
          Inr (map (preprocess_row tz parse
                      (to_numeric (map (\<lambda>r. clean_valuation (VALUATION r)) records)))
                   records))"

subsection \<open>The calendar\<close>

text \<open>
  What the year of a time is, for reference: \<open>days_before_year y\<close> is the number of days
  from 1970-01-01 to the first of January of the year \<open>y\<close>, with 365 days in a year and
  one more in a leap year, and \<open>year_start y\<close> is the first nanosecond of \<open>y\<close>. The other
  two functions serve the proof that \<open>dt_year\<close> computes the year:
  \<open>days_before_march y\<close> is the number of days from 0000-03-01 to the first of March of
  \<open>y\<close>, and \<open>leap_adjusted\<close> is the numerator of \<open>dt_year\<close>'s year of the era.
\<close>

definition days_before_year :: "int \<Rightarrow> int" where
  "days_before_year y =
     365 * (y - 1970) + (y - 1969) div 4 - (y - 1901) div 100 + (y - 1601) div 400"

definition year_start :: "int \<Rightarrow> timestamp" where
  "year_start y = days_before_year y * 86400000000000"

definition days_before_march :: "int \<Rightarrow> int" where
  "days_before_march y = 365 * y + y div 4 - y div 100 + y div 400"

definition leap_adjusted :: "int \<Rightarrow> int" where
  "leap_adjusted doe = doe - doe div 1460 + doe div 36524 - doe div 146096"

section \<open>The join (lines 29 to 34)\<close>

text \<open>
  \<open>records.merge(contractors[...], left_on=..., right_on=..., how='left')\<close>: the permit
  rows in their order, each followed by the contractor columns of every contractor row
  with an equal key, in the contractors' order; a permit row without a partner appears
  once with null contractor columns. pandas lets a null key match a null key, which is
  what equality on \<open>option\<close> does.
\<close>

definition null_contractor :: contractor where
  "null_contractor = \<lparr> BUSINESS_NAME = None, BUSINESS_TYPE = None \<rparr>"

definition matches :: "'v permit \<Rightarrow> contractor list \<Rightarrow> contractor list" where
  "matches l contractors = filter (\<lambda>c. BUSINESS_NAME c = CONTRACTOR_BUSINESS_NAME l) contractors"

definition merge_row :: "contractor list \<Rightarrow> 'v permit \<Rightarrow> 'v merged_record list" where
  "merge_row contractors l =
     (if matches l contractors = [] then [(l, null_contractor)]
      else map (Pair l) (matches l contractors))"

definition merged_df :: "'v permit list \<Rightarrow> contractor list \<Rightarrow> 'v merged_record list" where
  "merged_df records contractors = concat (map (merge_row contractors) records)"

section \<open>The sidebar filters (lines 41 to 59)\<close>

text \<open>\<open>col.dropna()\<close> and \<open>col.unique()\<close>; the latter keeps first occurrences, in order.\<close>

primrec dropna :: "'a option list \<Rightarrow> 'a list" where
  "dropna [] = []"
| "dropna (x # xs) = (case x of None \<Rightarrow> dropna xs | Some v \<Rightarrow> v # dropna xs)"

definition unique :: "'a list \<Rightarrow> 'a list" where
  "unique xs = rev (remdups (rev xs))"

definition default_year_range :: "int \<times> int" where
  "default_year_range = (2013, 2023)"

definition permit_options :: "'v permit list \<Rightarrow> string list" where
  "permit_options records = unique (dropna (map PERMIT_TYPE records))"

definition business_options :: "contractor list \<Rightarrow> string list" where
  "business_options contractors = unique (dropna (map BUSINESS_TYPE contractors))"

text \<open>
  Comparisons with a null are false, and \<open>isin\<close> of a null is false for a list of
  values without nulls, which the selected options are: they are strings.
\<close>

definition year_ge :: "int option \<Rightarrow> int \<Rightarrow> bool" where
  "year_ge y b = (case y of None \<Rightarrow> False | Some v \<Rightarrow> v \<ge> b)"

definition year_le :: "int option \<Rightarrow> int \<Rightarrow> bool" where
  "year_le y b = (case y of None \<Rightarrow> False | Some v \<Rightarrow> v \<le> b)"

definition isin :: "string option \<Rightarrow> string list \<Rightarrow> bool" where
  "isin x vals = (case x of None \<Rightarrow> False | Some s \<Rightarrow> s \<in> set vals)"

definition row_selected ::
  "int \<times> int \<Rightarrow> string list \<Rightarrow> string list \<Rightarrow> 'v merged_record \<Rightarrow> bool" where
  "row_selected year_range selected_permits selected_businesses r =
     (year_ge (YEAR (fst r)) (fst year_range) \<and>
      year_le (YEAR (fst r)) (snd year_range) \<and>
      isin (PERMIT_TYPE (fst r)) selected_permits \<and>
      isin (BUSINESS_TYPE (snd r)) selected_businesses)"

definition filtered_df ::
  "int \<times> int \<Rightarrow> string list \<Rightarrow> string list \<Rightarrow> 'v merged_record list
     \<Rightarrow> 'v merged_record list" where
  "filtered_df year_range selected_permits selected_businesses df =
     filter (row_selected year_range selected_permits selected_businesses) df"

section \<open>The aggregations (lines 82 to 160)\<close>

text \<open>
  \<open>col.nunique()\<close> counts the distinct non-null values of a column, \<open>col.count()\<close> its
  non-null values, and \<open>col.mean()\<close> averages the non-null values, with \<open>NaN\<close> when
  there are none.
\<close>

definition nunique :: "'a option list \<Rightarrow> nat" where
  "nunique col = length (unique (dropna col))"

definition count :: "'a option list \<Rightarrow> nat" where
  "count col = length (dropna col)"

definition mean_vals :: "real list \<Rightarrow> real option" where
  "mean_vals vs = (if vs = [] then None else Some (sum_list vs / real (length vs)))"

definition mean :: "real option list \<Rightarrow> real option" where
  "mean col = mean_vals (dropna col)"

text \<open>
  \<open>df.groupby(key)\<close> with its defaults \<open>sort=True, dropna=True\<close>: one group for every
  distinct non-null key, the groups in ascending key order, each group holding its rows
  in the order of the frame. Rows with a null key belong to no group.
\<close>

definition groupby :: "('r \<Rightarrow> 'k::linorder option) \<Rightarrow> 'r list \<Rightarrow> ('k \<times> 'r list) list" where
  "groupby key df =
     map (\<lambda>k. (k, filter (\<lambda>r. key r = Some k) df)) (sort (unique (dropna (map key df))))"

text \<open>
  \<open>df.sort_values(by, ascending=...)\<close> on a column without nulls. pandas sorts
  descending by reversing the rows, sorting ascending and reversing the result. The
  sort is taken to be stable; pandas' default algorithm does not promise the order of
  rows with equal keys, and no statement below depends on it.
\<close>

definition sort_values :: "('r \<Rightarrow> 'k::linorder) \<Rightarrow> bool \<Rightarrow> 'r list \<Rightarrow> 'r list" where
  "sort_values by ascending df =
     (if ascending then sort_key by df else rev (sort_key by (rev df)))"

text \<open>
  The aggregated tables after \<open>reset_index()\<close>: a row is the group key followed by the
  aggregated columns, which are named as in the script.
\<close>

definition num_contractors :: "'k \<times> nat \<times> 'a \<Rightarrow> nat" where
  "num_contractors row = fst (snd row)"

definition num_permits :: "'k \<times> nat \<times> nat \<Rightarrow> nat" where
  "num_permits row = snd (snd row)"

definition avg_cost :: "'k \<times> nat \<times> real option \<Rightarrow> real option" where
  "avg_cost row = snd (snd row)"

definition permit_count :: "'k \<times> nat \<Rightarrow> nat" where
  "permit_count row = snd row"

definition df_permit :: "'v merged_record list \<Rightarrow> (string \<times> nat \<times> nat) list" where
  "df_permit filtered =
     sort_values num_contractors False
       (map (\<lambda>(k, g). (k, nunique (map (\<lambda>r. CONTRACTOR_BUSINESS_NAME (fst r)) g),
                           count (map (\<lambda>r. PERMIT_TYPE (fst r)) g)))
            (groupby (\<lambda>r. PERMIT_TYPE (fst r)) filtered))"

definition df_scatter :: "real merged_record list \<Rightarrow> (string \<times> nat \<times> real option) list" where
  "df_scatter filtered =
     map (\<lambda>(k, g). (k, nunique (map (\<lambda>r. CONTRACTOR_BUSINESS_NAME (fst r)) g),
                        mean (map (\<lambda>r. VALUATION (fst r)) g)))
         (groupby (\<lambda>r. CENSUS_TRACT (fst r)) filtered)"

definition df_time :: "'v merged_record list \<Rightarrow> (int \<times> nat) list" where
  "df_time filtered =
     sort_values fst True
       (map (\<lambda>(k, g). (k, count (map (\<lambda>r. PERMIT_TYPE (fst r)) g)))
            (groupby (\<lambda>r. YEAR (fst r)) filtered))"

subsection \<open>\<open>describe(include='all')\<close>\<close>

text \<open>
  pandas (version 2) describes a column by its type. A numeric column gets count,
  mean, std, min, the three quartiles and max; a timestamp column the same without std,
  computed on the nanosecond values; an object column count, unique, top and freq. Every
  statistic is over the non-null values, and a statistic that has no value is \<open>NaN\<close>.
  The sample standard deviation divides by \<open>n - 1\<close>; a quantile interpolates linearly
  between the two nearest order statistics. The statistics are computed over the reals;
  the square root makes \<open>std\<close> the one function here that does not evaluate.
\<close>

definition std_vals :: "real list \<Rightarrow> real option" where
  "std_vals vs =
     (if length vs < 2 then None
      else let m = sum_list vs / real (length vs)
           in Some (sqrt (sum_list (map (\<lambda>x. (x - m)\<^sup>2) vs) / real (length vs - 1))))"

definition min_vals :: "real list \<Rightarrow> real option" where
  "min_vals vs = (if vs = [] then None else Some (hd (sort vs)))"

definition max_vals :: "real list \<Rightarrow> real option" where
  "max_vals vs = (if vs = [] then None else Some (last (sort vs)))"

definition quantile :: "real \<Rightarrow> real list \<Rightarrow> real option" where
  "quantile q vs =
     (if vs = [] then None
      else let s = sort vs;
               pos = q * real (length vs - 1);
               lo = nat \<lfloor>pos\<rfloor>;
               hi = nat \<lceil>pos\<rceil>
           in Some (s ! lo + (s ! hi - s ! lo) * (pos - real lo)))"

text \<open>
  \<open>col.value_counts()\<close>: the distinct values with their number of occurrences, the most
  frequent first.
\<close>

definition value_counts :: "'a list \<Rightarrow> ('a \<times> nat) list" where
  "value_counts vs = sort_values snd False (map (\<lambda>v. (v, count_list vs v)) (unique vs))"

datatype summary =
  Numeric (n_count: nat) (n_mean: "real option") (n_std: "real option") (n_min: "real option")
          (n_q25: "real option") (n_q50: "real option") (n_q75: "real option") (n_max: "real option")
| Timestamp (t_count: nat) (t_mean: "real option") (t_min: "real option")
          (t_q25: "real option") (t_q50: "real option") (t_q75: "real option") (t_max: "real option")
| Categorical (c_count: nat) (c_unique: nat) (c_top: "string option") (c_freq: "nat option")

definition describe_numeric_1d :: "real option list \<Rightarrow> summary" where
  "describe_numeric_1d col =
     (let vs = dropna col
      in Numeric (length vs) (mean_vals vs) (std_vals vs) (min_vals vs)
           (quantile (1/4) vs) (quantile (1/2) vs) (quantile (3/4) vs) (max_vals vs))"

definition describe_timestamp_1d :: "timestamp option list \<Rightarrow> summary" where
  "describe_timestamp_1d col =
     (let vs = map real_of_int (dropna col)
      in Timestamp (length vs) (mean_vals vs) (min_vals vs)
           (quantile (1/4) vs) (quantile (1/2) vs) (quantile (3/4) vs) (max_vals vs))"

definition describe_categorical_1d :: "string option list \<Rightarrow> summary" where
  "describe_categorical_1d col =
     (let objcounts = value_counts (dropna col)
      in if objcounts \<noteq> []
         then Categorical (count col) (length objcounts)
                (Some (fst (hd objcounts))) (Some (snd (hd objcounts)))
         else Categorical (count col) (length objcounts) None None)"

text \<open>The summary of the filtered view, one entry per column, in column order.\<close>

definition describe :: "real merged_record list \<Rightarrow> (string \<times> summary) list" where
  "describe filtered =
     [(''ISSUE_DATE'', describe_timestamp_1d (map (\<lambda>r. ISSUE_DATE (fst r)) filtered)),
      (''VALUATION'', describe_numeric_1d (map (\<lambda>r. VALUATION (fst r)) filtered)),
      (''PERMIT_TYPE'', describe_categorical_1d (map (\<lambda>r. PERMIT_TYPE (fst r)) filtered)),
      (''CONTRACTOR_BUSINESS_NAME'',
         describe_categorical_1d (map (\<lambda>r. CONTRACTOR_BUSINESS_NAME (fst r)) filtered)),
      (''CENSUS_TRACT'', describe_categorical_1d (map (\<lambda>r. CENSUS_TRACT (fst r)) filtered)),
      (''YEAR'', describe_numeric_1d (map (\<lambda>r. map_option real_of_int (YEAR (fst r))) filtered)),
      (''BUSINESS_NAME'', describe_categorical_1d (map (\<lambda>r. BUSINESS_NAME (snd r)) filtered)),
      (''BUSINESS_TYPE'', describe_categorical_1d (map (\<lambda>r. BUSINESS_TYPE (snd r)) filtered))]"

section \<open>Example data\<close>

text \<open>
  The example permit of the specification as it is loaded and after preprocessing, a
  permit with a date that does not parse, two permits dated with different UTC offsets,
  a permit of 2012, two contractors, and the behaviour of pandas' two parsers on the
  columns of the examples: a date column that holds both offsets becomes a column of
  objects, the other date columns become datetime columns without a time zone.
\<close>

definition example_raw :: raw_permit where
  "example_raw = \<lparr> ISSUE_DATE = Some ''2019-05-01'', VALUATION = Some ''$12,000'',
       PERMIT_TYPE = Some ''Electrical'', CONTRACTOR_BUSINESS_NAME = Some ''Acme'',
       CENSUS_TRACT = Some ''2060.10'' \<rparr>"

definition example_raw_undated :: raw_permit where
  "example_raw_undated = \<lparr> ISSUE_DATE = Some ''unknown'', VALUATION = Some ''$300'',
       PERMIT_TYPE = Some ''Electrical'', CONTRACTOR_BUSINESS_NAME = Some ''Acme'',
       CENSUS_TRACT = Some ''2060.10'' \<rparr>"

definition example_raw_pst :: raw_permit where
  "example_raw_pst = \<lparr> ISSUE_DATE = Some ''2019-01-15T08:00:00-08:00'',
       VALUATION = Some ''$12,000'', PERMIT_TYPE = Some ''Electrical'',
       CONTRACTOR_BUSINESS_NAME = Some ''Acme'', CENSUS_TRACT = Some ''2060.10'' \<rparr>"

definition example_raw_pdt :: raw_permit where
  "example_raw_pdt = \<lparr> ISSUE_DATE = Some ''2019-07-15T08:00:00-07:00'',
       VALUATION = Some ''$300'', PERMIT_TYPE = Some ''Electrical'',
       CONTRACTOR_BUSINESS_NAME = Some ''Acme'', CENSUS_TRACT = Some ''2060.10'' \<rparr>"

definition example_tz :: "timestamp \<Rightarrow> int" where
  "example_tz t = 0"

definition example_parsed :: "string \<Rightarrow> timestamp option" where
  "example_parsed s = (if s = ''2019-05-01'' then Some 1556668800000000000 else None)"

definition example_to_datetime :: date_parser where
  "example_to_datetime col =
     (if Some ''2019-01-15T08:00:00-08:00'' \<in> set col \<and>
         Some ''2019-07-15T08:00:00-07:00'' \<in> set col
      then Inr ObjectColumn
      else Inr (DatetimeColumn example_tz example_parsed))"

definition example_to_numeric :: num_parser where
  "example_to_numeric col s =
     (if s = ''12000'' then Some (Finite 12000)
      else if s = ''300'' then Some (Finite 300) else None)"

definition example_permit :: "real permit" where
  "example_permit = \<lparr> ISSUE_DATE = Some 1556668800000000000, VALUATION = Some 12000,
       PERMIT_TYPE = Some ''Electrical'', CONTRACTOR_BUSINESS_NAME = Some ''Acme'',
       CENSUS_TRACT = Some ''2060.10'', YEAR = Some 2019 \<rparr>"

definition example_permit_bolt :: "real permit" where
  "example_permit_bolt = \<lparr> ISSUE_DATE = Some 1556668800000000000, VALUATION = None,
       PERMIT_TYPE = Some ''Electrical'', CONTRACTOR_BUSINESS_NAME = Some ''Bolt'',
       CENSUS_TRACT = Some ''2060.10'', YEAR = Some 2019 \<rparr>"

definition example_permit_2012 :: "real permit" where
  "example_permit_2012 = \<lparr> ISSUE_DATE = Some 1335830400000000000, VALUATION = Some 500,
       PERMIT_TYPE = Some ''Electrical'', CONTRACTOR_BUSINESS_NAME = Some ''Acme'',
       CENSUS_TRACT = Some ''2060.10'', YEAR = Some 2012 \<rparr>"

definition example_acme :: contractor where
  "example_acme = \<lparr> BUSINESS_NAME = Some ''Acme'', BUSINESS_TYPE = Some ''Electrician'' \<rparr>"

definition example_zenith :: contractor where
  "example_zenith = \<lparr> BUSINESS_NAME = Some ''Zenith'', BUSINESS_TYPE = Some ''Plumbing'' \<rparr>"

lemmas example_defs = example_raw_def example_raw_undated_def example_raw_pst_def
  example_raw_pdt_def example_tz_def example_parsed_def example_to_datetime_def
  example_to_numeric_def example_permit_def example_permit_bolt_def example_permit_2012_def
  example_acme_def example_zenith_def

section \<open>Columns and nulls\<close>

lemma ball_neq_not_image: "\<forall>m \<in> S. f m \<noteq> p \<Longrightarrow> p \<notin> f ` S"
  by auto

lemma set_dropna: "set (dropna xs) = {v. Some v \<in> set xs}"
  by (induction xs) (auto split: option.splits)

lemma length_dropna: "length (dropna xs) = length (filter (\<lambda>x. x \<noteq> None) xs)"
  by (induction xs) (auto split: option.splits)

lemma set_unique: "set (unique xs) = set xs"
  by (simp add: unique_def)

lemma distinct_unique: "distinct (unique xs)"
  by (simp add: unique_def)

lemma nunique_card: "nunique col = card {v. Some v \<in> set col}"
  by (simp add: nunique_def distinct_card [OF distinct_unique, symmetric] set_unique set_dropna)

lemma count_all_nonnull: "None \<notin> set col \<Longrightarrow> count col = length col"
proof -
  assume "None \<notin> set col"
  then have "filter (\<lambda>x. x \<noteq> None) col = col"
    by (intro filter_True) metis
  then show ?thesis
    by (simp only: count_def length_dropna)
qed

section \<open>Properties of the filter\<close>

lemma isin_iff: "isin x vals \<longleftrightarrow> (\<exists>s. x = Some s \<and> s \<in> set vals)"
  by (cases x) (simp_all add: isin_def)

lemma year_ge_iff: "year_ge y b \<longleftrightarrow> (\<exists>v. y = Some v \<and> b \<le> v)"
  by (cases y) (simp_all add: year_ge_def)

lemma year_le_iff: "year_le y b \<longleftrightarrow> (\<exists>v. y = Some v \<and> v \<le> b)"
  by (cases y) (simp_all add: year_le_def)

lemma row_selected_iff:
  "row_selected yr sp sb r \<longleftrightarrow>
     (\<exists>y p b. YEAR (fst r) = Some y \<and> fst yr \<le> y \<and> y \<le> snd yr \<and>
        PERMIT_TYPE (fst r) = Some p \<and> p \<in> set sp \<and>
        BUSINESS_TYPE (snd r) = Some b \<and> b \<in> set sb)"
  by (auto simp: row_selected_def isin_iff year_ge_iff year_le_iff)

lemma row_selected_nonnull:
  assumes "row_selected yr sp sb r"
  shows "YEAR (fst r) \<noteq> None" and "PERMIT_TYPE (fst r) \<noteq> None" and "BUSINESS_TYPE (snd r) \<noteq> None"
  using assms by (auto simp: row_selected_iff)

lemma filtered_df_nonnull:
  assumes "r \<in> set (filtered_df yr sp sb df)"
  shows "YEAR (fst r) \<noteq> None \<and> PERMIT_TYPE (fst r) \<noteq> None \<and> BUSINESS_TYPE (snd r) \<noteq> None"
proof -
  from assms have "row_selected yr sp sb r" by (simp add: filtered_df_def)
  then show ?thesis using row_selected_nonnull by blast
qed

text \<open>
  C6. Filtering is idempotent: for every merged data frame and all criteria, filtering
  the filtered view again with the same criteria gives the filtered view.
\<close>

theorem filtered_df_idempotent:
  "filtered_df yr sp sb (filtered_df yr sp sb df) = filtered_df yr sp sb df"
  by (simp add: filtered_df_def)

text \<open>
  C3. A comparison of a null year with a bound is false and \<open>isin\<close> of a null is false,
  so for every merged data frame and all criteria a row whose year, permit type or
  business type is null is not in the filtered view.
\<close>

theorem filtered_df_excludes_null:
  "\<not> year_ge None lo \<and> \<not> year_le None hi \<and> \<not> isin None vals \<and>
   (\<forall>r. YEAR (fst r) = None \<or> PERMIT_TYPE (fst r) = None \<or> BUSINESS_TYPE (snd r) = None
        \<longrightarrow> r \<notin> set (filtered_df yr sp sb df))"
  by (auto simp: filtered_df_def row_selected_iff year_ge_def year_le_def isin_def)

theorem filtered_df_excludes_null_witness:
  "BUSINESS_TYPE (snd (example_permit, null_contractor)) = None \<and>
   (example_permit, null_contractor)
     \<notin> set (filtered_df (2013, 2023) [''Electrical''] [''Plumbing'']
              [(example_permit, null_contractor), (example_permit, example_zenith)])"
proof -
  have "BUSINESS_TYPE (snd (example_permit, null_contractor)) = None"
    by (simp add: null_contractor_def)
  with filtered_df_excludes_null [of 2013 2023 "[''Plumbing'']" "(2013, 2023)" "[''Electrical'']"
      "[''Plumbing'']" "[(example_permit, null_contractor), (example_permit, example_zenith)]"]
  show ?thesis by blast
qed

section \<open>Properties of the join\<close>

lemma filter_key_distinct:
  "distinct (map f xs) \<Longrightarrow> length (filter (\<lambda>c. f c = k) xs) \<le> 1"
proof (induction xs)
  case Nil
  show ?case by simp
next
  case (Cons a xs)
  show ?case
  proof (cases "f a = k")
    case True
    with Cons.prems have "k \<notin> f ` set xs" by auto
    then have "filter (\<lambda>c. f c = k) xs = []"
      by (auto simp: filter_empty_conv)
    with True show ?thesis by simp
  next
    case False
    with Cons show ?thesis by simp
  qed
qed

lemma merge_row_single:
  assumes "distinct (map BUSINESS_NAME contractors)"
  shows "\<exists>c. merge_row contractors l = [(l, c)] \<and>
             (matches l contractors = [] \<longrightarrow> c = null_contractor)"
proof (cases "matches l contractors")
  case Nil
  then show ?thesis by (simp add: merge_row_def)
next
  case (Cons c cs)
  have "length (matches l contractors) \<le> 1"
    unfolding matches_def using assms by (rule filter_key_distinct)
  with Cons have "cs = []" by simp
  with Cons show ?thesis by (simp add: merge_row_def)
qed

lemma merged_df_Cons:
  "merged_df (l # records) contractors = merge_row contractors l @ merged_df records contractors"
  by (simp add: merged_df_def)

lemma merged_df_unique_names:
  assumes "distinct (map BUSINESS_NAME contractors)"
  shows "map fst (merged_df records contractors) = records \<and>
         (\<forall>i < length records. matches (records ! i) contractors = [] \<longrightarrow>
              snd (merged_df records contractors ! i) = null_contractor)"
proof (induction records)
  case Nil
  show ?case by (simp add: merged_df_def)
next
  case (Cons l records)
  obtain c where c: "merge_row contractors l = [(l, c)]"
    "matches l contractors = [] \<longrightarrow> c = null_contractor"
    using merge_row_single [OF assms] by blast
  show ?case
    using Cons.IH c by (auto simp: merged_df_Cons nth_Cons split: nat.splits)
qed

lemma set_merge_row:
  "set (merge_row contractors l) \<subseteq> {l} \<times> (insert null_contractor (set contractors))"
  by (auto simp: merge_row_def matches_def)

lemma merge_row_BUSINESS_TYPE:
  assumes "m \<in> set (merge_row contractors l)" and "BUSINESS_TYPE (snd m) = Some b"
  shows "snd m \<in> set contractors"
  using assms by (auto simp: merge_row_def matches_def null_contractor_def split: if_splits)

lemma fst_merged_df: "m \<in> set (merged_df records contractors) \<Longrightarrow> fst m \<in> set records"
  using set_merge_row by (fastforce simp: merged_df_def)

lemma snd_merged_df:
  "m \<in> set (merged_df records contractors) \<Longrightarrow> BUSINESS_TYPE (snd m) = Some b
     \<Longrightarrow> snd m \<in> set contractors"
  using merge_row_BUSINESS_TYPE by (fastforce simp: merged_df_def)

text \<open>
  C2. When the \<open>BUSINESS_NAME\<close> values of the contractors are pairwise distinct, the
  merged data frame has as many rows as the permit table, its permit columns are the
  permit table row for row, and a permit row without a contractor of its name has a
  null \<open>BUSINESS_TYPE\<close>.
\<close>

theorem left_join_preserves_rows:
  assumes "distinct (map BUSINESS_NAME contractors)"
  shows "length (merged_df records contractors) = length records \<and>
         map fst (merged_df records contractors) = records \<and>
         (\<forall>i < length records. matches (records ! i) contractors = [] \<longrightarrow>
              BUSINESS_TYPE (snd (merged_df records contractors ! i)) = None)"
proof -
  note u = merged_df_unique_names [OF assms, of records]
  from u have "length (map fst (merged_df records contractors)) = length records" by simp
  then have "length (merged_df records contractors) = length records" by simp
  with u show ?thesis by (simp add: null_contractor_def)
qed

theorem left_join_preserves_rows_witness:
  "distinct (map BUSINESS_NAME [example_acme, example_zenith]) \<and>
   length (merged_df [example_permit, example_permit_bolt] [example_acme, example_zenith]) = 2 \<and>
   matches example_permit_bolt [example_acme, example_zenith] = [] \<and>
   BUSINESS_TYPE
     (snd (merged_df [example_permit, example_permit_bolt] [example_acme, example_zenith] ! 1))
     = None"
proof -
  have d: "distinct (map BUSINESS_NAME [example_acme, example_zenith])"
    by (simp add: example_defs)
  have m: "matches example_permit_bolt [example_acme, example_zenith] = []"
    by (simp add: matches_def example_defs)
  from left_join_preserves_rows [OF d, of "[example_permit, example_permit_bolt]"] d m
  show ?thesis by auto
qed

section \<open>The default criteria\<close>

lemma default_row_selected:
  assumes "m \<in> set (merged_df records contractors)"
  shows "row_selected default_year_range (permit_options records) (business_options contractors) m
     \<longleftrightarrow> (\<exists>y. YEAR (fst m) = Some y \<and> 2013 \<le> y \<and> y \<le> 2023) \<and>
          PERMIT_TYPE (fst m) \<noteq> None \<and> BUSINESS_TYPE (snd m) \<noteq> None"
proof -
  have p: "p \<in> set (permit_options records)" if "PERMIT_TYPE (fst m) = Some p" for p
  proof -
    have "Some p \<in> set (map PERMIT_TYPE records)"
      using fst_merged_df [OF assms] that by force
    then show ?thesis by (simp add: permit_options_def set_unique set_dropna)
  qed
  have b: "b \<in> set (business_options contractors)" if "BUSINESS_TYPE (snd m) = Some b" for b
  proof -
    have "Some b \<in> set (map BUSINESS_TYPE contractors)"
      using snd_merged_df [OF assms that] that by force
    then show ?thesis by (simp add: business_options_def set_unique set_dropna)
  qed
  show ?thesis
    using p b by (auto simp: row_selected_iff default_year_range_def)
qed

text \<open>
  C1, as the specification states it, fails: with the default criteria the filtered
  view is not always the merged data frame. A permit of 2019 whose contractor is not in
  the contractor table is merged with a null business type and dropped, and a permit of
  2012 with a known contractor is dropped by the slider's range.
\<close>

theorem default_filter_drops_rows:
  "filtered_df default_year_range (permit_options [example_permit_bolt])
       (business_options [example_acme]) (merged_df [example_permit_bolt] [example_acme])
     \<noteq> merged_df [example_permit_bolt] [example_acme] \<and>
   filtered_df default_year_range (permit_options [example_permit_2012])
       (business_options [example_acme]) (merged_df [example_permit_2012] [example_acme])
     \<noteq> merged_df [example_permit_2012] [example_acme]"
  by (simp add: filtered_df_def merged_df_def merge_row_def matches_def row_selected_def
      isin_def year_ge_def year_le_def default_year_range_def null_contractor_def example_defs)

text \<open>
  C1, amended. With the default criteria (the years 2013 to 2023, every permit type
  of the permit table, every business type of the contractor table) the filtered view
  consists of exactly the merged rows whose year is not null and lies in 2013 to 2023
  and whose permit type and business type are not null.
\<close>

theorem default_filter_selects_complete_rows:
  "filtered_df default_year_range (permit_options records) (business_options contractors)
       (merged_df records contractors)
   = filter (\<lambda>m. (\<exists>y. YEAR (fst m) = Some y \<and> 2013 \<le> y \<and> y \<le> 2023) \<and>
                  PERMIT_TYPE (fst m) \<noteq> None \<and> BUSINESS_TYPE (snd m) \<noteq> None)
       (merged_df records contractors)"
  unfolding filtered_df_def
  by (rule filter_cong [OF refl]) (rule default_row_selected)

section \<open>The calendar and \<open>dt_year\<close>\<close>

text \<open>The reference calendar starts in 1970 and gives a leap year one day more.\<close>

lemma div_step:
  fixes a c :: int
  assumes "0 < c"
  shows "(a + 1) div c = a div c + (if (a + 1) mod c = 0 then 1 else 0)"
proof (cases "(a + 1) mod c = 0")
  case True
  then obtain q where q: "a + 1 = c * q" by (auto simp: mod_eq_0_iff_dvd)
  have "a = c * (q - 1) + (c - 1)" using q by (simp add: algebra_simps)
  then have "a div c = q - 1"
    using assms by (intro int_div_pos_eq [where r = "c - 1"]) auto
  moreover have "(a + 1) div c = q" using q assms by simp
  ultimately show ?thesis using True by simp
next
  case False
  have r: "0 \<le> a mod c" "a mod c < c" using assms by simp_all
  have "a mod c + 1 \<noteq> c"
  proof
    assume "a mod c + 1 = c"
    then have "a + 1 = c * (a div c + 1)"
      by (metis add.assoc distrib_left mult.right_neutral mult_div_mod_eq)
    then have "(a + 1) mod c = 0" by simp
    with False show False by simp
  qed
  with r have "a mod c + 1 < c" by simp
  moreover have "a + 1 = c * (a div c) + (a mod c + 1)" by simp
  ultimately have "(a + 1) div c = a div c"
    using r by (intro int_div_pos_eq [where r = "a mod c + 1"]) auto
  with False show ?thesis by simp
qed

lemma leap_divisors:
  fixes y :: int
  shows "y mod 400 = 0 \<Longrightarrow> y mod 100 = 0" and "y mod 100 = 0 \<Longrightarrow> y mod 4 = 0"
proof -
  have "(100::int) dvd 400" "(4::int) dvd 100" by simp_all
  then show "y mod 400 = 0 \<Longrightarrow> y mod 100 = 0" and "y mod 100 = 0 \<Longrightarrow> y mod 4 = 0"
    unfolding mod_eq_0_iff_dvd by (blast intro: dvd_trans)+
qed

lemma days_before_year_1970: "days_before_year 1970 = 0"
  by (simp add: days_before_year_def)

lemma days_before_year_march: "days_before_year y = days_before_march (y - 1) - 719162"
proof -
  have "(y - 1969) div 4 = (y - 1) div 4 - 492"
    using div_mult_self2 [of 4 "y - 1" "- 492"] by simp
  moreover have "(y - 1901) div 100 = (y - 1) div 100 - 19"
    using div_mult_self2 [of 100 "y - 1" "- 19"] by simp
  moreover have "(y - 1601) div 400 = (y - 1) div 400 - 4"
    using div_mult_self2 [of 400 "y - 1" "- 4"] by simp
  ultimately show ?thesis by (simp add: days_before_year_def days_before_march_def)
qed

lemma days_before_march_step:
  "days_before_march (y + 1) - days_before_march y =
     (if (y + 1) mod 4 = 0 \<and> ((y + 1) mod 100 \<noteq> 0 \<or> (y + 1) mod 400 = 0) then 366 else 365)"
proof -
  define a b c where "a \<longleftrightarrow> (y + 1) mod 4 = 0" and "b \<longleftrightarrow> (y + 1) mod 100 = 0"
    and "c \<longleftrightarrow> (y + 1) mod 400 = 0"
  have 4: "(y + 1) div 4 - y div 4 = (if a then 1 else 0)"
    using div_step [of 4 y] by (simp add: a_def)
  have 100: "(y + 1) div 100 - y div 100 = (if b then 1 else 0)"
    using div_step [of 100 y] by (simp add: b_def)
  have 400: "(y + 1) div 400 - y div 400 = (if c then 1 else 0)"
    using div_step [of 400 y] by (simp add: c_def)
  have m: "c \<Longrightarrow> b" "b \<Longrightarrow> a"
    unfolding a_def b_def c_def by (rule leap_divisors(1), assumption) (rule leap_divisors(2), assumption)
  have "days_before_march (y + 1) - days_before_march y
      = 365 + ((y + 1) div 4 - y div 4) - ((y + 1) div 100 - y div 100)
            + ((y + 1) div 400 - y div 400)"
    by (simp add: days_before_march_def)
  also have "\<dots> = (if a \<and> (\<not> b \<or> c) then 366 else 365)"
    unfolding 4 100 400 using m by (cases a; cases b; cases c) simp_all
  finally show ?thesis unfolding a_def b_def c_def .
qed

lemma days_before_year_Suc:
  "days_before_year (y + 1) - days_before_year y =
     (if y mod 4 = 0 \<and> (y mod 100 \<noteq> 0 \<or> y mod 400 = 0) then 366 else 365)"
  using days_before_march_step [of "y - 1"] by (simp add: days_before_year_march)

lemma days_before_year_mono: "a \<le> b \<Longrightarrow> days_before_year a \<le> days_before_year b"
proof (induction b rule: int_ge_induct)
  case base
  show ?case by simp
next
  case (step i)
  have "days_before_year i \<le> days_before_year (i + 1)"
    using days_before_year_Suc [of i] by (simp split: if_splits)
  with step show ?case by simp
qed

lemma year_start_mono: "a \<le> b \<Longrightarrow> year_start a \<le> year_start b"
  unfolding year_start_def by (intro mult_right_mono days_before_year_mono) auto

lemma days_before_march_era: "days_before_march (400 * e + j) = 146097 * e + days_before_march j"
proof -
  have "(400 * e + j) div 4 = 100 * e + j div 4"
    using div_mult_self2 [of 4 j "100 * e"] by (simp add: algebra_simps)
  moreover have "(400 * e + j) div 100 = 4 * e + j div 100"
    using div_mult_self2 [of 100 j "4 * e"] by (simp add: algebra_simps)
  moreover have "(400 * e + j) div 400 = e + j div 400"
    using div_mult_self2 [of 400 j e] by (simp add: algebra_simps)
  ultimately show ?thesis by (simp add: days_before_march_def)
qed

text \<open>
  The year of the era. Its numerator never decreases with the day of the era, and on
  the first and the last day of each of the 400 years of an era the quotient is that
  year; so it is that year on every day between.
\<close>

lemma div_diff_le:
  fixes x y c :: int
  assumes "x \<le> y" and "1 \<le> c"
  shows "y div c - x div c \<le> y - x"
proof -
  have "(y - x) \<le> (y - x) * c" using assms by (simp add: mult_le_cancel_left1)
  then have "y - (y - x) * c \<le> x" by simp
  then have "(y - (y - x) * c) div c \<le> x div c"
    using assms(2) by (intro zdiv_mono1) auto
  moreover have "(y + (x - y) * c) div c = (x - y) + y div c"
    using assms(2) by simp
  moreover have "y - (y - x) * c = y + (x - y) * c"
    by (simp add: algebra_simps)
  ultimately show ?thesis by simp
qed

lemma leap_adjusted_mono: assumes "n \<le> m" shows "leap_adjusted n \<le> leap_adjusted m"
proof -
  have a: "m div 1460 - n div 1460 \<le> m - n"
    using assms by (intro div_diff_le) auto
  have p: "n div 36524 \<le> m div 36524"
    using assms by (intro zdiv_mono1) auto
  have q: "n div 146096 = (n div 36524) div 4" "m div 146096 = (m div 36524) div 4"
    by (simp_all add: zdiv_zmult2_eq [symmetric])
  have b: "(m div 36524) div 4 - (n div 36524) div 4 \<le> m div 36524 - n div 36524"
    using p by (intro div_diff_le) auto
  show ?thesis unfolding leap_adjusted_def q using a b by linarith
qed

lemma year_of_era_boundaries:
  "list_all (\<lambda>k. leap_adjusted (days_before_march k) div 365 = k \<and>
                  leap_adjusted (days_before_march (k + 1) - 1) div 365 = k) [0..399]"
  by code_simp

lemma year_of_era_at:
  assumes "0 \<le> k" "k < 400"
  shows "leap_adjusted (days_before_march k) div 365 = k"
    and "leap_adjusted (days_before_march (k + 1) - 1) div 365 = k"
proof -
  have "k \<in> set [0..399]" using assms by simp
  with year_of_era_boundaries
  have "leap_adjusted (days_before_march k) div 365 = k \<and>
        leap_adjusted (days_before_march (k + 1) - 1) div 365 = k"
    unfolding list_all_iff by blast
  then show "leap_adjusted (days_before_march k) div 365 = k"
    and "leap_adjusted (days_before_march (k + 1) - 1) div 365 = k" by simp_all
qed

lemma days_before_march_0_400: "days_before_march 0 = 0" "days_before_march 400 = 146097"
  by (simp_all add: days_before_march_def)

lemma year_of_era_range:
  assumes "0 \<le> n" "n < 146097"
  shows "0 \<le> leap_adjusted n div 365" and "leap_adjusted n div 365 < 400"
    and "days_before_march (leap_adjusted n div 365) \<le> n"
    and "n < days_before_march (leap_adjusted n div 365 + 1)"
proof -
  let ?k = "leap_adjusted n div 365"
  have mono: "a \<le> b \<Longrightarrow> leap_adjusted a div 365 \<le> leap_adjusted b div 365" for a b
    using leap_adjusted_mono [of a b] by (intro zdiv_mono1) auto
  have lo: "leap_adjusted 0 div 365 = 0"
    using year_of_era_at(1) [of 0] by (simp add: days_before_march_0_400)
  have hi: "leap_adjusted 146096 div 365 = 399"
    using year_of_era_at(2) [of 399] by (simp add: days_before_march_0_400)
  show k0: "0 \<le> ?k" using mono [of 0 n] assms lo by simp
  show k1: "?k < 400" using mono [of n 146096] assms hi by simp
  show "days_before_march ?k \<le> n"
  proof (rule ccontr)
    assume "\<not> days_before_march ?k \<le> n"
    then have lt: "n \<le> days_before_march ?k - 1" by simp
    have "?k \<noteq> 0" using lt assms by (auto simp: days_before_march_0_400)
    with k0 have "0 \<le> ?k - 1" "?k - 1 < 400" using k1 by simp_all
    from year_of_era_at(2) [OF this]
    have "leap_adjusted (days_before_march ?k - 1) div 365 = ?k - 1" by simp
    with mono [OF lt] show False by simp
  qed
  show "n < days_before_march (?k + 1)"
  proof (rule ccontr)
    assume "\<not> n < days_before_march (?k + 1)"
    then have ge: "days_before_march (?k + 1) \<le> n" by simp
    have "?k + 1 \<noteq> 400" using ge assms by (auto simp: days_before_march_0_400)
    with k1 have "0 \<le> ?k + 1" "?k + 1 < 400" using k0 by simp_all
    from year_of_era_at(1) [OF this]
    have "leap_adjusted (days_before_march (?k + 1)) div 365 = ?k + 1" .
    with mono [OF ge] show False by simp
  qed
qed

text \<open>
  The body of \<open>dt_year\<close> on a day number \<open>z\<close> counted from 0000-03-01: the year it
  returns begins, on the first of January, no later than \<open>z\<close> and ends after it.
\<close>

lemma dt_year_days:
  fixes z :: int
  defines "e \<equiv> z div 146097" and "n \<equiv> z mod 146097"
  defines "k \<equiv> leap_adjusted n div 365"
  defines "doy \<equiv> n - (365 * k + k div 4 - k div 100)"
  defines "R \<equiv> k + e * 400 + (if (if (5 * doy + 2) div 153 < 10 then (5 * doy + 2) div 153 + 3
                                      else (5 * doy + 2) div 153 - 9) \<le> 2 then 1 else 0)"
  shows "days_before_march (R - 1) + 306 \<le> z" and "z < days_before_march R + 306"
proof -
  have n: "0 \<le> n" "n < 146097" by (simp_all add: n_def)
  note yr = year_of_era_range [OF n, folded k_def]
  have z: "z = 146097 * e + n" by (simp add: e_def n_def)
  define M where "M = 400 * e + k"
  have k400: "k div 400 = 0" using yr(1,2) by simp
  have march_k: "days_before_march k = 365 * k + k div 4 - k div 100"
    by (simp add: days_before_march_def k400)
  have doy: "doy = z - days_before_march M"
    by (simp add: doy_def M_def days_before_march_era z march_k)
  have lo: "days_before_march M \<le> z"
    using yr(3) by (simp add: M_def days_before_march_era z)
  have hi: "z < days_before_march (M + 1)"
    using yr(4) days_before_march_era [of e "k + 1"] by (simp add: M_def z algebra_simps)
  have len: "365 \<le> days_before_march (M' + 1) - days_before_march M'"
    "days_before_march (M' + 1) - days_before_march M' \<le> 366" for M'
    using days_before_march_step [of M'] by (simp_all split: if_splits)
  have d0: "0 \<le> doy" using lo doy by simp
  have d1: "doy \<le> 365" using hi len(2) [of M] doy by simp
  have mp0: "0 \<le> (5 * doy + 2) div 153" using d0 by (simp add: pos_imp_zdiv_nonneg_iff)
  have mp11: "(5 * doy + 2) div 153 \<le> 11"
  proof -
    have "(5 * doy + 2) div 153 \<le> (5 * 365 + 2) div 153"
      using d1 by (intro zdiv_mono1) auto
    then show ?thesis by simp
  qed
  have mp10: "10 \<le> (5 * doy + 2) div 153 \<longleftrightarrow> 306 \<le> doy"
  proof
    assume a: "10 \<le> (5 * doy + 2) div 153"
    show "306 \<le> doy"
    proof (rule ccontr)
      assume "\<not> 306 \<le> doy"
      then have "(5 * doy + 2) div 153 \<le> (5 * 305 + 2) div 153"
        by (intro zdiv_mono1) auto
      with a show False by simp
    qed
  next
    assume "306 \<le> doy"
    then have "(5 * 306 + 2) div 153 \<le> (5 * doy + 2) div 153"
      by (intro zdiv_mono1) auto
    then show "10 \<le> (5 * doy + 2) div 153" by simp
  qed
  have R: "R = M + (if 306 \<le> doy then 1 else 0)"
    unfolding R_def M_def using mp0 mp11 mp10 by auto
  show "days_before_march (R - 1) + 306 \<le> z"
  proof (cases "306 \<le> doy")
    case True
    then show ?thesis using R doy by simp
  next
    case False
    then show ?thesis using R lo len(1) [of "M - 1"] by simp
  qed
  show "z < days_before_march R + 306"
  proof (cases "306 \<le> doy")
    case True
    then show ?thesis using R hi by simp
  next
    case False
    then show ?thesis using R doy by simp
  qed
qed

lemma dt_year_days_before:
  "days_before_year (dt_year ns) \<le> ns div 86400000000000"
  "ns div 86400000000000 < days_before_year (dt_year ns + 1)"
proof -
  note dd = dt_year_days [of "ns div 86400000000000 + 719468", folded leap_adjusted_def]
  have R: "dt_year ns =
      leap_adjusted ((ns div 86400000000000 + 719468) mod 146097) div 365 +
      (ns div 86400000000000 + 719468) div 146097 * 400 +
      (if (if (5 * ((ns div 86400000000000 + 719468) mod 146097 -
                (365 * (leap_adjusted ((ns div 86400000000000 + 719468) mod 146097) div 365) +
                 leap_adjusted ((ns div 86400000000000 + 719468) mod 146097) div 365 div 4 -
                 leap_adjusted ((ns div 86400000000000 + 719468) mod 146097) div 365 div 100)) + 2)
               div 153 < 10
           then (5 * ((ns div 86400000000000 + 719468) mod 146097 -
                (365 * (leap_adjusted ((ns div 86400000000000 + 719468) mod 146097) div 365) +
                 leap_adjusted ((ns div 86400000000000 + 719468) mod 146097) div 365 div 4 -
                 leap_adjusted ((ns div 86400000000000 + 719468) mod 146097) div 365 div 100)) + 2)
               div 153 + 3
           else (5 * ((ns div 86400000000000 + 719468) mod 146097 -
                (365 * (leap_adjusted ((ns div 86400000000000 + 719468) mod 146097) div 365) +
                 leap_adjusted ((ns div 86400000000000 + 719468) mod 146097) div 365 div 4 -
                 leap_adjusted ((ns div 86400000000000 + 719468) mod 146097) div 365 div 100)) + 2)
               div 153 - 9) \<le> 2
       then 1 else 0)"
    unfolding dt_year_def Let_def leap_adjusted_def ..
  from dd(1) show "days_before_year (dt_year ns) \<le> ns div 86400000000000"
    unfolding R [symmetric] days_before_year_march by simp
  from dd(2) show "ns div 86400000000000 < days_before_year (dt_year ns + 1)"
    unfolding R [symmetric] days_before_year_march by simp
qed

text \<open>
  \<open>dt_year\<close> computes the year: every time lies in the year \<open>dt_year\<close> gives it, and in
  no other.
\<close>

lemma dt_year_span:
  "year_start (dt_year ns) \<le> ns" "ns < year_start (dt_year ns + 1)"
proof -
  let ?D = "86400000000000 :: int"
  have ns: "ns = ns div ?D * ?D + ns mod ?D" by simp
  have m: "0 \<le> ns mod ?D" "ns mod ?D < ?D" by simp_all
  have "days_before_year (dt_year ns) * ?D \<le> ns div ?D * ?D"
    using dt_year_days_before(1) [of ns] by (intro mult_right_mono) auto
  with ns m(1) show "year_start (dt_year ns) \<le> ns"
    unfolding year_start_def by linarith
  have "ns div ?D + 1 \<le> days_before_year (dt_year ns + 1)"
    using dt_year_days_before(2) [of ns] by simp
  then have "(ns div ?D + 1) * ?D \<le> days_before_year (dt_year ns + 1) * ?D"
    by (intro mult_right_mono) auto
  with ns m(2) show "ns < year_start (dt_year ns + 1)"
    unfolding year_start_def by (simp add: algebra_simps)
qed

lemma dt_year_unique:
  assumes "year_start y \<le> ns" and "ns < year_start (y + 1)"
  shows "dt_year ns = y"
proof (rule ccontr)
  assume ne: "dt_year ns \<noteq> y"
  note s = dt_year_span [of ns]
  show False
  proof (cases "dt_year ns < y")
    case True
    then have "year_start (dt_year ns + 1) \<le> year_start y"
      by (intro year_start_mono) simp
    with s(2) assms(1) show False by simp
  next
    case False
    with ne have "year_start (y + 1) \<le> year_start (dt_year ns)"
      by (intro year_start_mono) simp
    with s(1) assms(2) show False by simp
  qed
qed

section \<open>Properties of the preprocessing\<close>

lemma str_replace_char: "str_replace [c] [] s = filter (\<lambda>x. x \<noteq> c) s"
proof (induction s)
  case Nil
  show ?case by (simp add: str_replace.simps)
next
  case (Cons a s)
  show ?case
    by (subst str_replace.simps) (simp add: Cons.IH)
qed

lemma clean_valuation_Some:
  "clean_valuation (Some s) = filter (\<lambda>x. x \<noteq> CHR ''$'' \<and> x \<noteq> CHR '','') s"
  by (simp add: clean_valuation_def astype_str_def str_replace_char conj_commute)

lemma clean_valuation_None: "clean_valuation None = ''None''"
  by (simp add: clean_valuation_def astype_str_def str_replace_char)

lemma dt_year_example: "dt_year 1556668800000000000 = 2019"
  by code_simp

text \<open>
  The year at the ends of 2019, on a leap day, at the epoch and just before it.
\<close>

lemma dt_year_boundaries:
  "dt_year 1546300799999999999 = 2018"
  "dt_year 1546300800000000000 = 2019"
  "dt_year 1577836799999999999 = 2019"
  "dt_year 1577836800000000000 = 2020"
  "dt_year 1582934400000000000 = 2020"
  "dt_year 1335830400000000000 = 2012"
  "dt_year 0 = 1970"
  "dt_year (- 1) = 1969"
  by code_simp+

text \<open>
  An hour before midnight of 2019-12-31 on a clock five hours behind UTC: the instant is
  in 2020, the year on that clock is 2019.
\<close>

lemma dt_year_wall_clock:
  "dt_year 1577851200000000000 = 2020"
  "dt_year (1577851200000000000 + (- 18000000000000)) = 2019"
  by code_simp+

text \<open>
  Preprocessing raises exactly when \<open>pd.to_datetime\<close> raises or returns a column of
  objects; the valuations have no part in it.
\<close>

lemma preprocessing_datetime:
  assumes "to_datetime (map ISSUE_DATE records) = Inr (DatetimeColumn tz parse)"
  shows "preprocessing to_datetime to_numeric records =
           Inr (map (preprocess_row tz parse
                       (to_numeric (map (\<lambda>r. clean_valuation (VALUATION r)) records)))
                    records)"
  by (simp add: preprocessing_def assms)

lemma preprocessing_raises:
  "to_datetime (map ISSUE_DATE records) = Inl e
     \<Longrightarrow> preprocessing to_datetime to_numeric records = Inl e"
  "to_datetime (map ISSUE_DATE records) = Inr ObjectColumn
     \<Longrightarrow> preprocessing to_datetime to_numeric records = Inl AttributeError"
  by (simp_all add: preprocessing_def)


text \<open>The example row as it is loaded, alone in its table, and what it is preprocessed to.\<close>

lemma example_preprocessed:
  "preprocessing example_to_datetime example_to_numeric [example_raw] =
     Inr [\<lparr> ISSUE_DATE = Some 1556668800000000000, VALUATION = Some (Finite 12000),
            PERMIT_TYPE = Some ''Electrical'', CONTRACTOR_BUSINESS_NAME = Some ''Acme'',
            CENSUS_TRACT = Some ''2060.10'', YEAR = Some 2019 \<rparr>]"
  by (simp add: preprocessing_def preprocess_row_def Let_def clean_valuation_Some
      dt_year_example example_defs)



text \<open>
  C4, as the specification states it, fails: a table can hold a row with an
  unparseable date and get no \<open>YEAR\<close> column at all. When two other rows are dated with
  different UTC offsets, \<open>pd.to_datetime\<close> returns a column of objects and line 20
  raises \<open>AttributeError\<close>.
\<close>

theorem unparseable_date_table_raises:
  "preprocessing example_to_datetime example_to_numeric
     [example_raw_pst, example_raw_pdt, example_raw_undated] = Inl AttributeError"
  by (simp add: preprocessing_def example_to_datetime_def example_raw_pst_def
      example_raw_pdt_def example_raw_undated_def)

text \<open>
  C4, amended. Whenever \<open>pd.to_datetime\<close> makes the date column a datetime column,
  preprocessing returns the rows, a row whose \<open>ISSUE_DATE\<close> string the parser rejects
  has a null \<open>YEAR\<close>, and whatever the contractors and the criteria, no row of the
  filtered view comes from it.
\<close>

theorem unparseable_date_excluded:
  assumes "to_datetime (map ISSUE_DATE records) = Inr (DatetimeColumn tz parse)"
    and "i < length records"
    and "ISSUE_DATE (records ! i) = Some s"
    and "parse s = None"
  shows "\<exists>ps. preprocessing to_datetime to_numeric records = Inr ps \<and>
           length ps = length records \<and>
           YEAR (ps ! i) = None \<and>
           (\<forall>m \<in> set (filtered_df yr sp sb (merged_df ps contractors)). fst m \<noteq> ps ! i)"
proof -
  let ?ps = "map (preprocess_row tz parse
                    (to_numeric (map (\<lambda>r. clean_valuation (VALUATION r)) records))) records"
  have ps: "preprocessing to_datetime to_numeric records = Inr ?ps"
    using assms(1) by (rule preprocessing_datetime)
  have y: "YEAR (?ps ! i) = None"
    using assms(2-4) by (simp add: preprocess_row_def Let_def)
  have "fst m \<noteq> ?ps ! i"
    if "m \<in> set (filtered_df yr sp sb (merged_df ?ps contractors))" for m
  proof -
    from that have "row_selected yr sp sb m" by (simp add: filtered_df_def)
    then have "YEAR (fst m) \<noteq> None" by (rule row_selected_nonnull)
    with y show ?thesis by auto
  qed
  then have "\<forall>m \<in> set (filtered_df yr sp sb (merged_df ?ps contractors)). fst m \<noteq> ?ps ! i"
    by blast
  with ps y show ?thesis by (intro exI [of _ ?ps]) simp
qed

theorem unparseable_date_excluded_witness:
  "example_to_datetime (map ISSUE_DATE [example_raw, example_raw_undated])
     = Inr (DatetimeColumn example_tz example_parsed) \<and>
   (1 :: nat) < length [example_raw, example_raw_undated] \<and>
   ISSUE_DATE ([example_raw, example_raw_undated] ! 1) = Some ''unknown'' \<and>
   example_parsed ''unknown'' = None \<and>
   (\<exists>ps. preprocessing example_to_datetime example_to_numeric [example_raw, example_raw_undated]
           = Inr ps \<and>
         length ps = length [example_raw, example_raw_undated] \<and>
         YEAR (ps ! 1) = None \<and>
         ps ! 1 \<notin> fst ` set (filtered_df (2013, 2023) [''Electrical''] [''Electrician'']
                                (merged_df ps [example_acme])))"
proof -
  have h1: "example_to_datetime (map ISSUE_DATE [example_raw, example_raw_undated])
      = Inr (DatetimeColumn example_tz example_parsed)"
    by (simp add: example_to_datetime_def example_raw_def example_raw_undated_def)
  have h2: "(1 :: nat) < length [example_raw, example_raw_undated]" by simp
  have h3: "ISSUE_DATE ([example_raw, example_raw_undated] ! 1) = Some ''unknown''"
    by (simp add: example_raw_undated_def)
  have h4: "example_parsed ''unknown'' = None"
    by (simp add: example_parsed_def)
  from unparseable_date_excluded [where to_datetime = example_to_datetime
      and records = "[example_raw, example_raw_undated]" and tz = example_tz
      and parse = example_parsed and i = 1 and s = "''unknown''"
      and to_numeric = example_to_numeric and yr = "(2013, 2023)"
      and sp = "[''Electrical'']" and sb = "[''Electrician'']"
      and contractors = "[example_acme]", OF h1 h2 h3 h4]
  obtain ps where ps: "preprocessing example_to_datetime example_to_numeric
        [example_raw, example_raw_undated] = Inr ps"
    and len: "length ps = length [example_raw, example_raw_undated]"
    and y: "YEAR (ps ! 1) = None"
    and b: "\<forall>m \<in> set (filtered_df (2013, 2023) [''Electrical''] [''Electrician'']
                        (merged_df ps [example_acme])). fst m \<noteq> ps ! 1"
    by (elim exE conjE)
  note n = b [THEN ball_neq_not_image]
  have "\<exists>ps. preprocessing example_to_datetime example_to_numeric
           [example_raw, example_raw_undated] = Inr ps \<and>
         length ps = length [example_raw, example_raw_undated] \<and>
         YEAR (ps ! 1) = None \<and>
         ps ! 1 \<notin> fst ` set (filtered_df (2013, 2023) [''Electrical''] [''Electrician'']
                                (merged_df ps [example_acme]))"
    by (rule exI [of _ ps]) (rule conjI [OF ps conjI [OF len conjI [OF y n]]])
  then show ?thesis
    by (rule conjI [OF h1 conjI [OF h2 conjI [OF h3 conjI [OF h4]]]])
qed

section \<open>Properties of grouping and sorting\<close>

lemma groupby_keys: "map fst (groupby key df) = sort (unique (dropna (map key df)))"
  by (simp add: groupby_def comp_def)

lemma groupby_keys_sorted: "sorted_wrt (<) (map fst (groupby key df))"
  by (simp add: groupby_keys strict_sorted_iff distinct_unique)

lemma groupby_keys_set: "set (map fst (groupby key df)) = {k. \<exists>r \<in> set df. key r = Some k}"
  by (force simp: groupby_keys set_unique set_dropna image_iff)

lemma groupby_group:
  "(k, g) \<in> set (groupby key df) \<Longrightarrow> g = filter (\<lambda>r. key r = Some k) df"
  by (auto simp: groupby_def)

lemma groupby_Nil: "groupby key [] = []"
  by (simp add: groupby_def unique_def)

lemma set_sort_values: "set (sort_values by asc df) = set df"
  by (simp add: sort_values_def)

lemma distinct_map_sort_values:
  "distinct (map f (sort_values by asc df)) = distinct (map f df)"
proof -
  have s: "set (map f (sort_values by asc df)) = set (map f df)"
    by (simp add: sort_values_def)
  have l: "length (map f (sort_values by asc df)) = length (map f df)"
    by (simp add: sort_values_def)
  show ?thesis
    using s l by (metis card_distinct distinct_card)
qed

lemma sort_values_descending:
  "sorted_wrt (\<lambda>a b. by a \<ge> by b) (sort_values by False df)"
proof -
  have "sorted (map by (sort_key by (rev df)))" by simp
  then have "sorted_wrt (\<lambda>a b. by a \<le> by b) (sort_key by (rev df))"
    by (simp add: sorted_map)
  then have "sorted_wrt (\<lambda>a b. by b \<le> by a) (rev (sort_key by (rev df)))"
    by (simp add: sorted_wrt_rev)
  then show ?thesis by (simp add: sort_values_def)
qed

lemma sort_values_ascending_sorted:
  "sorted (map by df) \<Longrightarrow> sort_values by True df = df"
  by (simp add: sort_values_def sort_key_id_if_sorted)

lemma group_count_rows:
  assumes "(k, g) \<in> set (groupby key (filtered_df yr sp sb df))"
  shows "count (map (\<lambda>r. PERMIT_TYPE (fst r)) g) = length g"
proof -
  have "g = filter (\<lambda>r. key r = Some k) (filtered_df yr sp sb df)"
    using assms by (rule groupby_group)
  then have "set g \<subseteq> set (filtered_df yr sp sb df)" by auto
  then have "\<forall>r \<in> set g. PERMIT_TYPE (fst r) \<noteq> None"
    using filtered_df_nonnull by blast
  then have "None \<notin> set (map (\<lambda>r. PERMIT_TYPE (fst r)) g)"
    by (metis (mono_tags, lifting) imageE list.set_map)
  then show ?thesis
    using count_all_nonnull by fastforce
qed

section \<open>The table by permit type\<close>

lemma df_permit_rows:
  assumes "row \<in> set (df_permit df)"
  shows "num_contractors row =
           card {n. \<exists>r \<in> set df. PERMIT_TYPE (fst r) = Some (fst row) \<and>
                                 CONTRACTOR_BUSINESS_NAME (fst r) = Some n}"
    and "num_permits row = length (filter (\<lambda>r. PERMIT_TYPE (fst r) = Some (fst row)) df)"
proof -
  from assms obtain k g where kg: "(k, g) \<in> set (groupby (\<lambda>r. PERMIT_TYPE (fst r)) df)"
    and row: "row = (k, nunique (map (\<lambda>r. CONTRACTOR_BUSINESS_NAME (fst r)) g),
                        count (map (\<lambda>r. PERMIT_TYPE (fst r)) g))"
    by (auto simp: df_permit_def set_sort_values)
  have g: "g = filter (\<lambda>r. PERMIT_TYPE (fst r) = Some k) df"
    using kg by (rule groupby_group)
  have "{v. Some v \<in> set (map (\<lambda>r. CONTRACTOR_BUSINESS_NAME (fst r)) g)}
        = {n. \<exists>r \<in> set df. PERMIT_TYPE (fst r) = Some k \<and> CONTRACTOR_BUSINESS_NAME (fst r) = Some n}"
    unfolding g by force
  then show "num_contractors row =
           card {n. \<exists>r \<in> set df. PERMIT_TYPE (fst r) = Some (fst row) \<and>
                                 CONTRACTOR_BUSINESS_NAME (fst r) = Some n}"
    by (simp add: row num_contractors_def nunique_card)
  have "None \<notin> set (map (\<lambda>r. PERMIT_TYPE (fst r)) g)"
    unfolding g by auto
  then have "count (map (\<lambda>r. PERMIT_TYPE (fst r)) g) = length g"
    using count_all_nonnull by fastforce
  then show "num_permits row = length (filter (\<lambda>r. PERMIT_TYPE (fst r) = Some (fst row)) df)"
    by (simp add: row num_permits_def g)
qed

lemma df_permit_unsorted_keys:
  "map fst (map (\<lambda>(k, g). (k, nunique (map (\<lambda>r. CONTRACTOR_BUSINESS_NAME (fst r)) g),
                           count (map (\<lambda>r. PERMIT_TYPE (fst r)) g)))
            (groupby (\<lambda>r. PERMIT_TYPE (fst r)) df))
   = map fst (groupby (\<lambda>r. PERMIT_TYPE (fst r)) df)"
  by (simp add: comp_def case_prod_unfold)

lemma df_permit_distinct: "distinct (map fst (df_permit df))"
proof -
  have "distinct (map fst (groupby (\<lambda>r. PERMIT_TYPE (fst r)) df))"
    using groupby_keys_sorted [of "\<lambda>r. PERMIT_TYPE (fst r)" df] by (simp add: strict_sorted_iff)
  then show ?thesis
    unfolding df_permit_def distinct_map_sort_values df_permit_unsorted_keys .
qed

lemma df_permit_key_set:
  "set (map fst (df_permit df)) = {p. \<exists>r \<in> set df. PERMIT_TYPE (fst r) = Some p}"
proof -
  have "set (map fst (df_permit df)) = set (map fst (groupby (\<lambda>r. PERMIT_TYPE (fst r)) df))"
    unfolding df_permit_def set_map set_sort_values
    unfolding set_map [symmetric] df_permit_unsorted_keys ..
  then show ?thesis by (simp only: groupby_keys_set)
qed

lemma df_permit_two_rows:
  assumes "PERMIT_TYPE (fst r1) = Some p" "PERMIT_TYPE (fst r2) = Some p"
    and "CONTRACTOR_BUSINESS_NAME (fst r1) = Some a" "CONTRACTOR_BUSINESS_NAME (fst r2) = Some b"
    and "a \<noteq> b"
  shows "df_permit [r1, r2] = [(p, 2, 2)]"
  using assms
  by (simp add: df_permit_def groupby_def unique_def nunique_def count_def sort_values_def)

text \<open>
  C7. For every filtered view (indeed for every merged data frame) the table by permit
  type has one row for every permit type that occurs, holding the number of distinct
  contractor business names (a null is not a name) and the number of rows of that type,
  and its rows are in descending order of the number of contractors. Two rows of one permit type with two
  different contractor names give the single row with \<open>num_contractors = 2\<close> and
  \<open>num_permits = 2\<close>.
\<close>

theorem df_permit_spec:
  "sorted_wrt (\<lambda>a b. num_contractors a \<ge> num_contractors b) (df_permit df) \<and>
   distinct (map fst (df_permit df)) \<and>
   set (map fst (df_permit df)) = {p. \<exists>r \<in> set df. PERMIT_TYPE (fst r) = Some p} \<and>
   (\<forall>row \<in> set (df_permit df).
      num_contractors row =
        card {n. \<exists>r \<in> set df. PERMIT_TYPE (fst r) = Some (fst row) \<and>
                              CONTRACTOR_BUSINESS_NAME (fst r) = Some n} \<and>
      num_permits row = length (filter (\<lambda>r. PERMIT_TYPE (fst r) = Some (fst row)) df)) \<and>
   (\<forall>r1 r2 p a b.
      PERMIT_TYPE (fst r1) = Some p \<and> PERMIT_TYPE (fst r2) = Some p \<and>
      CONTRACTOR_BUSINESS_NAME (fst r1) = Some a \<and> CONTRACTOR_BUSINESS_NAME (fst r2) = Some b \<and>
      a \<noteq> b \<longrightarrow> df_permit [r1, r2] = [(p, 2, 2)])"
proof -
  have "sorted_wrt (\<lambda>a b. num_contractors a \<ge> num_contractors b) (df_permit df)"
    unfolding df_permit_def by (rule sort_values_descending)
  moreover note df_permit_distinct df_permit_key_set
  moreover have "\<forall>row \<in> set (df_permit df).
      num_contractors row =
        card {n. \<exists>r \<in> set df. PERMIT_TYPE (fst r) = Some (fst row) \<and>
                              CONTRACTOR_BUSINESS_NAME (fst r) = Some n} \<and>
      num_permits row = length (filter (\<lambda>r. PERMIT_TYPE (fst r) = Some (fst row)) df)"
    using df_permit_rows by blast
  moreover have "\<forall>r1 r2 p a b.
      PERMIT_TYPE (fst r1) = Some p \<and> PERMIT_TYPE (fst r2) = Some p \<and>
      CONTRACTOR_BUSINESS_NAME (fst r1) = Some a \<and> CONTRACTOR_BUSINESS_NAME (fst r2) = Some b \<and>
      a \<noteq> b \<longrightarrow> df_permit [r1, r2] = [(p, 2, 2)]"
    using df_permit_two_rows by blast
  ultimately show ?thesis by blast
qed

theorem df_permit_spec_witness:
  "PERMIT_TYPE (fst (example_permit, example_acme)) = Some ''Electrical'' \<and>
   PERMIT_TYPE (fst (example_permit_bolt, null_contractor)) = Some ''Electrical'' \<and>
   CONTRACTOR_BUSINESS_NAME (fst (example_permit, example_acme)) = Some ''Acme'' \<and>
   CONTRACTOR_BUSINESS_NAME (fst (example_permit_bolt, null_contractor)) = Some ''Bolt'' \<and>
   ''Acme'' \<noteq> ''Bolt'' \<and>
   df_permit [(example_permit, example_acme), (example_permit_bolt, null_contractor)]
     = [(''Electrical'', 2, 2)] \<and>
   num_permits (''Electrical'', 2, 2)
     = length (filter (\<lambda>r. PERMIT_TYPE (fst r) = Some ''Electrical'')
                 [(example_permit, example_acme), (example_permit_bolt, null_contractor)])"
proof -
  let ?df = "[(example_permit, example_acme), (example_permit_bolt, null_contractor)]"
  have h: "PERMIT_TYPE (fst (example_permit, example_acme)) = Some ''Electrical'' \<and>
    PERMIT_TYPE (fst (example_permit_bolt, null_contractor)) = Some ''Electrical'' \<and>
    CONTRACTOR_BUSINESS_NAME (fst (example_permit, example_acme)) = Some ''Acme'' \<and>
    CONTRACTOR_BUSINESS_NAME (fst (example_permit_bolt, null_contractor)) = Some ''Bolt'' \<and>
    ''Acme'' \<noteq> ''Bolt''"
    by (simp add: example_defs)
  note spec = df_permit_spec [of ?df]
  from spec h have eq: "df_permit ?df = [(''Electrical'', 2, 2)]" by blast
  from spec have "\<forall>row \<in> set (df_permit ?df).
      num_permits row = length (filter (\<lambda>r. PERMIT_TYPE (fst r) = Some (fst row)) ?df)"
    by blast
  then have "num_permits (''Electrical'', 2, 2)
      = length (filter (\<lambda>r. PERMIT_TYPE (fst r) = Some ''Electrical'') ?df)"
    unfolding eq by simp
  with h eq show ?thesis by blast
qed

section \<open>The table by year\<close>

lemma df_time_unsorted_keys:
  "map fst (map (\<lambda>(k, g). (k, count (map (\<lambda>r. PERMIT_TYPE (fst r)) g)))
            (groupby (\<lambda>r. YEAR (fst r)) df))
   = map fst (groupby (\<lambda>r. YEAR (fst r)) df)"
  by (simp add: comp_def case_prod_unfold)

lemma df_time_eq:
  "df_time df = map (\<lambda>(k, g). (k, count (map (\<lambda>r. PERMIT_TYPE (fst r)) g)))
                    (groupby (\<lambda>r. YEAR (fst r)) df)"
proof -
  have "sorted (map fst (groupby (\<lambda>r. YEAR (fst r)) df))"
    using groupby_keys_sorted [of "\<lambda>r. YEAR (fst r)" df] by (simp add: strict_sorted_iff)
  then show ?thesis
    unfolding df_time_def
    by (intro sort_values_ascending_sorted) (simp only: df_time_unsorted_keys)
qed

lemma df_time_keys: "map fst (df_time df) = map fst (groupby (\<lambda>r. YEAR (fst r)) df)"
  by (simp only: df_time_eq df_time_unsorted_keys)

lemma example_filtered:
  "filtered_df (2013, 2023) [''Electrical''] [''Electrician'']
     [(example_permit, example_acme), (example_permit_2012, example_acme),
      (example_permit_bolt, null_contractor)]
   = [(example_permit, example_acme)]"
  by (simp add: filtered_df_def row_selected_def isin_def year_ge_def year_le_def
      null_contractor_def example_defs)

text \<open>
  C8. For every filtered view the table by year has one row for every year that occurs
  in the view, holding the number of rows of the view in that year, and its rows are in
  ascending order of the year.
\<close>

theorem df_time_spec:
  assumes "fv = filtered_df yr sp sb df"
  shows "sorted_wrt (<) (map fst (df_time fv)) \<and>
         set (map fst (df_time fv)) = {y. \<exists>r \<in> set fv. YEAR (fst r) = Some y} \<and>
         (\<forall>row \<in> set (df_time fv).
            permit_count row = length (filter (\<lambda>r. YEAR (fst r) = Some (fst row)) fv))"
proof -
  have "permit_count row = length (filter (\<lambda>r. YEAR (fst r) = Some (fst row)) fv)"
    if "row \<in> set (df_time fv)" for row
  proof -
    from that obtain k g where kg: "(k, g) \<in> set (groupby (\<lambda>r. YEAR (fst r)) fv)"
      and row: "row = (k, count (map (\<lambda>r. PERMIT_TYPE (fst r)) g))"
      by (auto simp: df_time_eq)
    have "count (map (\<lambda>r. PERMIT_TYPE (fst r)) g) = length g"
      using kg unfolding assms by (rule group_count_rows)
    moreover have "g = filter (\<lambda>r. YEAR (fst r) = Some k) fv"
      using kg by (rule groupby_group)
    ultimately show ?thesis by (simp add: row permit_count_def)
  qed
  then show ?thesis
    by (simp add: df_time_keys groupby_keys_sorted groupby_keys_set [simplified])
qed

theorem df_time_spec_witness:
  "[(example_permit, example_acme)]
     = filtered_df (2013, 2023) [''Electrical''] [''Electrician'']
         [(example_permit, example_acme), (example_permit_2012, example_acme),
          (example_permit_bolt, null_contractor)] \<and>
   sorted_wrt (<) (map fst (df_time [(example_permit, example_acme)])) \<and>
   set (map fst (df_time [(example_permit, example_acme)]))
     = {y. \<exists>r \<in> set [(example_permit, example_acme)]. YEAR (fst r) = Some y} \<and>
   (2019, 1) \<in> set (df_time [(example_permit, example_acme)]) \<and>
   permit_count (2019 :: int, 1 :: nat)
     = length (filter (\<lambda>r. YEAR (fst r) = Some 2019) [(example_permit, example_acme)])"
proof -
  note h = example_filtered [symmetric]
  note spec = df_time_spec [OF h]
  have m: "(2019, 1) \<in> set (df_time [(example_permit, example_acme)])"
    by (simp add: df_time_eq groupby_def unique_def count_def example_defs)
  from spec have "\<forall>row \<in> set (df_time [(example_permit, example_acme)]).
      permit_count row
        = length (filter (\<lambda>r. YEAR (fst r) = Some (fst row)) [(example_permit, example_acme)])"
    by blast
  with m have "permit_count (2019 :: int, 1 :: nat)
      = length (filter (\<lambda>r. YEAR (fst r) = Some 2019) [(example_permit, example_acme)])"
    by fastforce
  with spec h m show ?thesis by blast
qed

section \<open>The filtered view has no nulls in the filtered columns\<close>

text \<open>
  C10. Every row of a filtered view has a year, a permit type and a business type that
  are not null; hence in every group of the view by year the number of non-null permit
  types, which is what the table by year counts, is the number of rows of the group.
\<close>

theorem filtered_view_nonnull:
  assumes "fv = filtered_df yr sp sb df"
  shows "(\<forall>r \<in> set fv. YEAR (fst r) \<noteq> None \<and> PERMIT_TYPE (fst r) \<noteq> None \<and>
                        BUSINESS_TYPE (snd r) \<noteq> None) \<and>
         (\<forall>kg \<in> set (groupby (\<lambda>r. YEAR (fst r)) fv).
             count (map (\<lambda>r. PERMIT_TYPE (fst r)) (snd kg)) = length (snd kg))"
proof -
  have "\<forall>r \<in> set fv. YEAR (fst r) \<noteq> None \<and> PERMIT_TYPE (fst r) \<noteq> None \<and>
                        BUSINESS_TYPE (snd r) \<noteq> None"
    unfolding assms using filtered_df_nonnull by blast
  moreover have "\<forall>kg \<in> set (groupby (\<lambda>r. YEAR (fst r)) fv).
             count (map (\<lambda>r. PERMIT_TYPE (fst r)) (snd kg)) = length (snd kg)"
    unfolding assms using group_count_rows by (metis prod.collapse)
  ultimately show ?thesis by blast
qed

theorem filtered_view_nonnull_witness:
  "[(example_permit, example_acme)]
     = filtered_df (2013, 2023) [''Electrical''] [''Electrician'']
         [(example_permit, example_acme), (example_permit_2012, example_acme),
          (example_permit_bolt, null_contractor)] \<and>
   YEAR (fst (example_permit, example_acme)) \<noteq> None \<and>
   PERMIT_TYPE (fst (example_permit, example_acme)) \<noteq> None \<and>
   BUSINESS_TYPE (snd (example_permit, example_acme)) \<noteq> None \<and>
   (2019, [(example_permit, example_acme)])
     \<in> set (groupby (\<lambda>r. YEAR (fst r)) [(example_permit, example_acme)]) \<and>
   count (map (\<lambda>r. PERMIT_TYPE (fst r)) [(example_permit, example_acme)])
     = length [(example_permit, example_acme)]"
proof -
  note h = example_filtered [symmetric]
  note spec = filtered_view_nonnull [OF h]
  have m: "(2019, [(example_permit, example_acme)])
      \<in> set (groupby (\<lambda>r. YEAR (fst r)) [(example_permit, example_acme)])"
    by (simp add: groupby_def unique_def example_defs)
  from spec have r: "YEAR (fst (example_permit, example_acme)) \<noteq> None \<and>
      PERMIT_TYPE (fst (example_permit, example_acme)) \<noteq> None \<and>
      BUSINESS_TYPE (snd (example_permit, example_acme)) \<noteq> None"
    by (simp del: not_None_eq)
  from spec have "\<forall>kg \<in> set (groupby (\<lambda>r. YEAR (fst r)) [(example_permit, example_acme)]).
      count (map (\<lambda>r. PERMIT_TYPE (fst r)) (snd kg)) = length (snd kg)"
    by blast
  with m have "count (map (\<lambda>r. PERMIT_TYPE (fst r)) [(example_permit, example_acme)])
      = length [(example_permit, example_acme)]"
    by fastforce
  with h m r show ?thesis by blast
qed

section \<open>The empty filtered view\<close>

text \<open>
  C9. None of the four summaries has a failing case: the pandas calls they are made of
  return a table for every data frame with these columns, which is why the model
  gives them no error value. On the empty filtered view the tables by permit type, by
  census tract and by year are empty, and the descriptive statistics report a count of
  zero and a null for every other statistic of every column.
\<close>

theorem aggregations_of_empty_view:
  "df_permit [] = [] \<and> df_scatter [] = [] \<and> df_time [] = [] \<and>
   describe [] =
     [(''ISSUE_DATE'', Timestamp 0 None None None None None None),
      (''VALUATION'', Numeric 0 None None None None None None None),
      (''PERMIT_TYPE'', Categorical 0 0 None None),
      (''CONTRACTOR_BUSINESS_NAME'', Categorical 0 0 None None),
      (''CENSUS_TRACT'', Categorical 0 0 None None),
      (''YEAR'', Numeric 0 None None None None None None None),
      (''BUSINESS_NAME'', Categorical 0 0 None None),
      (''BUSINESS_TYPE'', Categorical 0 0 None None)]"
proof -
  have 1: "df_permit [] = []"
    by (simp add: df_permit_def groupby_Nil sort_values_def)
  have 2: "df_scatter [] = []"
    by (simp add: df_scatter_def groupby_Nil)
  have 3: "df_time [] = []"
    by (simp add: df_time_def groupby_Nil sort_values_def)
  have t: "describe_timestamp_1d [] = Timestamp 0 None None None None None None"
    by (simp add: describe_timestamp_1d_def mean_vals_def min_vals_def max_vals_def quantile_def)
  have n: "describe_numeric_1d [] = Numeric 0 None None None None None None None"
    by (simp add: describe_numeric_1d_def mean_vals_def std_vals_def min_vals_def max_vals_def
        quantile_def)
  have c: "describe_categorical_1d [] = Categorical 0 0 None None"
    by (simp add: describe_categorical_1d_def value_counts_def unique_def sort_values_def count_def)
  have 4: "describe [] =
     [(''ISSUE_DATE'', Timestamp 0 None None None None None None),
      (''VALUATION'', Numeric 0 None None None None None None None),
      (''PERMIT_TYPE'', Categorical 0 0 None None),
      (''CONTRACTOR_BUSINESS_NAME'', Categorical 0 0 None None),
      (''CENSUS_TRACT'', Categorical 0 0 None None),
      (''YEAR'', Numeric 0 None None None None None None None),
      (''BUSINESS_NAME'', Categorical 0 0 None None),
      (''BUSINESS_TYPE'', Categorical 0 0 None None)]"
    by (simp add: describe_def t n c)
  from 1 2 3 4 show ?thesis by (intro conjI)
qed

end
